theory Spec2Isabelle
  imports Complex_Main
begin

section \<open>Flow3rTron: geometry, players, board and game\<close>

text \<open>
  The embedding follows \<^verbatim>\<open>__init__.py\<close>.  Python numbers (the ints of the start
  position and the floats produced by \<^verbatim>\<open>move\<close>) are modelled as \<^typ>\<open>real\<close>:
  arithmetic is exact.  The intersection test is given a second time with the rounding of
  every operation explicit, for the one property that depends on it.  Tuples are pairs,
  lists are lists, and the two places where the source indexes a list or a dict are
  modelled with their exceptions.
\<close>

type_synonym point = "real \<times> real"
type_synonym segment = "point \<times> point"

datatype error = IndexError | KeyError

subsection \<open>Geometry\<close>

text \<open>
  \<^verbatim>\<open>math.isclose(a, b, *, rel_tol=1e-09, abs_tol=0.0)\<close> of the Python standard library:
  equal values are close, otherwise the difference is compared with the relative tolerance
  scaled by either argument and with the absolute tolerance.
\<close>

definition isclose_tol :: "real \<Rightarrow> real \<Rightarrow> real \<Rightarrow> real \<Rightarrow> bool" where
  "isclose_tol rel_tol abs_tol a b =
     (a = b \<or> \<bar>b - a\<bar> \<le> \<bar>rel_tol * b\<bar> \<or> \<bar>b - a\<bar> \<le> \<bar>rel_tol * a\<bar> \<or> \<bar>b - a\<bar> \<le> abs_tol)"

text \<open>The call as the source writes it, \<^verbatim>\<open>math.isclose(x, 0)\<close>, with both defaults.\<close>

definition isclose :: "real \<Rightarrow> real \<Rightarrow> bool" where
  "isclose a b = isclose_tol (1 / 10 ^ 9) 0 a b"

definition denominator_a :: "segment \<Rightarrow> segment \<Rightarrow> real" where
  "denominator_a a b =
     (let p1 = fst a; p3 = fst b; p4 = snd b
      in ((fst p4 - fst p3) * (snd p1 - snd p3)) - ((snd p4 - snd p3) * (fst p1 - fst p3)))"

definition denominator_b :: "segment \<Rightarrow> segment \<Rightarrow> real" where
  "denominator_b a b =
     (let p1 = fst a; p2 = snd a; p3 = fst b
      in ((fst p2 - fst p1) * (snd p1 - snd p3)) - ((snd p2 - snd p1) * (fst p1 - fst p3)))"

definition numerator :: "segment \<Rightarrow> segment \<Rightarrow> real" where
  "numerator a b =
     (let p1 = fst a; p2 = snd a; p3 = fst b; p4 = snd b
      in (snd p4 - snd p3) * (fst p2 - fst p1) - (fst p4 - fst p3) * (snd p2 - snd p1))"

definition collides :: "segment \<Rightarrow> segment \<Rightarrow> bool" where
  "collides a b =
     (if isclose (numerator a b) 0 \<and> isclose (denominator_a a b) 0 then True
      else if isclose (numerator a b) 0 then False
      else (let u_a = denominator_a a b / numerator a b;
                u_b = denominator_b a b / numerator a b
            in 0 < u_a \<and> u_a < 1 \<and> 0 < u_b \<and> u_b < 1))"

text \<open>
  The same function with the rounding of floating-point arithmetic made explicit: every
  difference, product and quotient is passed through \<open>rnd\<close>.  With the identity for \<open>rnd\<close>
  it is \<^const>\<open>collides\<close>; round-to-nearest of binary floating point maps zero to zero and
  commutes with negation.
\<close>

definition isclose_tol_rnd :: "(real \<Rightarrow> real) \<Rightarrow> real \<Rightarrow> real \<Rightarrow> real \<Rightarrow> real \<Rightarrow> bool" where
  "isclose_tol_rnd rnd rel_tol abs_tol a b =
     (a = b \<or> \<bar>rnd (b - a)\<bar> \<le> \<bar>rnd (rel_tol * b)\<bar> \<or> \<bar>rnd (b - a)\<bar> \<le> \<bar>rnd (rel_tol * a)\<bar>
      \<or> \<bar>rnd (b - a)\<bar> \<le> abs_tol)"

definition isclose_rnd :: "(real \<Rightarrow> real) \<Rightarrow> real \<Rightarrow> real \<Rightarrow> bool" where
  "isclose_rnd rnd a b = isclose_tol_rnd rnd (1 / 10 ^ 9) 0 a b"

definition denominator_a_rnd :: "(real \<Rightarrow> real) \<Rightarrow> segment \<Rightarrow> segment \<Rightarrow> real" where
  "denominator_a_rnd rnd a b =
     (let p1 = fst a; p3 = fst b; p4 = snd b
      in rnd (rnd (rnd (fst p4 - fst p3) * rnd (snd p1 - snd p3))
              - rnd (rnd (snd p4 - snd p3) * rnd (fst p1 - fst p3))))"

definition denominator_b_rnd :: "(real \<Rightarrow> real) \<Rightarrow> segment \<Rightarrow> segment \<Rightarrow> real" where
  "denominator_b_rnd rnd a b =
     (let p1 = fst a; p2 = snd a; p3 = fst b
      in rnd (rnd (rnd (fst p2 - fst p1) * rnd (snd p1 - snd p3))
              - rnd (rnd (snd p2 - snd p1) * rnd (fst p1 - fst p3))))"

definition numerator_rnd :: "(real \<Rightarrow> real) \<Rightarrow> segment \<Rightarrow> segment \<Rightarrow> real" where
  "numerator_rnd rnd a b =
     (let p1 = fst a; p2 = snd a; p3 = fst b; p4 = snd b
      in rnd (rnd (rnd (snd p4 - snd p3) * rnd (fst p2 - fst p1))
              - rnd (rnd (fst p4 - fst p3) * rnd (snd p2 - snd p1))))"

definition collides_rnd :: "(real \<Rightarrow> real) \<Rightarrow> segment \<Rightarrow> segment \<Rightarrow> bool" where
  "collides_rnd rnd a b =
     (if isclose_rnd rnd (numerator_rnd rnd a b) 0 \<and> isclose_rnd rnd (denominator_a_rnd rnd a b) 0
      then True
      else if isclose_rnd rnd (numerator_rnd rnd a b) 0 then False
      else (let u_a = rnd (denominator_a_rnd rnd a b / numerator_rnd rnd a b);
                u_b = rnd (denominator_b_rnd rnd a b / numerator_rnd rnd a b)
            in 0 < u_a \<and> u_a < 1 \<and> 0 < u_b \<and> u_b < 1))"

text \<open>
  A rounding of that kind, coarse enough to follow by hand: truncation towards zero to one
  decimal digit.
\<close>

definition round_tenths :: "real \<Rightarrow> real" where
  "round_tenths x = (if 0 \<le> x then of_int \<lfloor>x * 10\<rfloor> / 10 else - (of_int \<lfloor>- x * 10\<rfloor> / 10))"

subsection \<open>Player\<close>

record Player =
  pos :: point
  color :: "int \<times> int \<times> int"
  direction :: real
  speed :: real
  traces :: "point list"
  dead :: bool

definition Player_init :: "point \<Rightarrow> Player" where
  "Player_init start_pos =
     \<lparr>pos = start_pos, color = (255, 255, 0), direction = 0, speed = 60,
      traces = [start_pos], dead = False\<rparr>"

text \<open>The generator body of \<^verbatim>\<open>get_traces\<close>: pair every point with its predecessor.\<close>

fun pair_up :: "point \<Rightarrow> point list \<Rightarrow> segment list" where
  "pair_up last_pt [] = []"
| "pair_up last_pt (trace # rest) = (last_pt, trace) # pair_up trace rest"

definition get_traces :: "Player \<Rightarrow> error + segment list" where
  "get_traces p =
     (case traces p of
        [] \<Rightarrow> Inl IndexError
      | first # rest \<Rightarrow> Inr (pair_up first (rest @ [pos p])))"

definition die :: "Player \<Rightarrow> Player" where
  "die p = p\<lparr>dead := True\<rparr>"


text \<open>The loop of \<^verbatim>\<open>check_collision\<close>; it has no \<^verbatim>\<open>break\<close> after \<^verbatim>\<open>die\<close>.\<close>

fun check_loop :: "segment \<Rightarrow> segment list \<Rightarrow> Player \<Rightarrow> Player" where
  "check_loop my_latest_trace [] p = p"
| "check_loop my_latest_trace (trace # rest) p =
     (if trace = my_latest_trace then check_loop my_latest_trace rest p
      else if collides my_latest_trace trace then check_loop my_latest_trace rest (die p)
      else check_loop my_latest_trace rest p)"

text \<open>\<^verbatim>\<open>(self._traces[-1], self._pos)\<close>, the segment still being drawn.\<close>

definition my_latest_trace :: "Player \<Rightarrow> error + segment" where
  "my_latest_trace p =
     (case traces p of [] \<Rightarrow> Inl IndexError | _ # _ \<Rightarrow> Inr (last (traces p), pos p))"

definition check_collision :: "Player \<Rightarrow> segment list \<Rightarrow> error + Player" where
  "check_collision p all_traces =
     (if dead p then Inr p
      else (case my_latest_trace p of
              Inl e \<Rightarrow> Inl e
            | Inr mine \<Rightarrow> Inr (check_loop mine all_traces p)))"

definition set_speed :: "real \<Rightarrow> Player \<Rightarrow> Player" where
  "set_speed s p = (if s < 0 then p else p\<lparr>speed := s\<rparr>)"

text \<open>Python's \<^verbatim>\<open>%\<close> on numbers: the result has the sign of a positive divisor.\<close>

definition pymod :: "real \<Rightarrow> real \<Rightarrow> real" where
  "pymod x m = x - m * of_int \<lfloor>x / m\<rfloor>"

definition set_direction :: "real \<Rightarrow> Player \<Rightarrow> Player" where
  "set_direction d p =
     (if pymod (d - direction p) 360 = 180 then p
      else if d \<noteq> direction p then p\<lparr>direction := d, traces := traces p @ [pos p]\<rparr>
      else p)"

definition move :: "real \<Rightarrow> Player \<Rightarrow> Player" where
  "move delta_ms p =
     (if dead p then p
      else (let dir_rad = (direction p * (2 * pi)) / 360;
                speed_ms = speed p * delta_ms / 1000;
                p' = p\<lparr>pos := (fst (pos p) + speed_ms * sin dir_rad,
                                snd (pos p) - speed_ms * cos dir_rad)\<rparr>
            in if (fst (pos p')) ^ 2 + (snd (pos p')) ^ 2 > 120 ^ 2 then die p' else p'))"

subsection \<open>Board\<close>

text \<open>
  The dict \<^verbatim>\<open>players\<close> is an association list in insertion order, the order in which
  \<^verbatim>\<open>values()\<close> iterates.  The input controller is reduced to what \<^verbatim>\<open>think\<close> reads of it:
  whether petal \<open>i\<close> is pressed.
\<close>

record Board =
  players :: "(int \<times> Player) list"
  local_player :: int

type_synonym InputController = "nat \<Rightarrow> bool"

definition Board_init :: Board where
  "Board_init = \<lparr>players = [(0, Player_init (-50, 0))], local_player = 0\<rparr>"

definition all_petals :: bool where
  "all_petals = False"

definition stepsize :: nat where
  "stepsize = (if all_petals then 1 else 2)"

text \<open>\<^verbatim>\<open>range(0, 10, stepsize)\<close>.\<close>

definition petal_range :: "nat list" where
  "petal_range = filter (\<lambda>i. i mod stepsize = 0) [0..<10]"

fun first_pressed :: "InputController \<Rightarrow> nat list \<Rightarrow> nat option" where
  "first_pressed inc [] = None"
| "first_pressed inc (i # rest) = (if inc i then Some i else first_pressed inc rest)"

text \<open>\<^verbatim>\<open>self.players[k].f()\<close>: a missing key raises, a present player is mutated in place.\<close>

definition update_player ::
  "int \<Rightarrow> (Player \<Rightarrow> Player) \<Rightarrow> (int \<times> Player) list \<Rightarrow> error + (int \<times> Player) list" where
  "update_player k f ps =
     (case map_of ps k of
        None \<Rightarrow> Inl KeyError
      | Some _ \<Rightarrow> Inr (map (\<lambda>(k', p). if k' = k then (k', f p) else (k', p)) ps))"

definition process_input :: "InputController \<Rightarrow> Board \<Rightarrow> error + Board" where
  "process_input inc b =
     (case first_pressed inc petal_range of
        None \<Rightarrow> Inr b
      | Some i \<Rightarrow>
          (case update_player (local_player b) (set_direction (real i * 360 / 10)) (players b) of
             Inl e \<Rightarrow> Inl e
           | Inr ps \<Rightarrow> Inr (b\<lparr>players := ps\<rparr>)))"

definition move_players :: "real \<Rightarrow> (int \<times> Player) list \<Rightarrow> (int \<times> Player) list" where
  "move_players delta_ms ps = map (\<lambda>(k, p). (k, move delta_ms p)) ps"

text \<open>\<^verbatim>\<open>chain(pl.get_traces() for pl in self.players.values())\<close>, fully consumed.\<close>

fun chain_traces :: "Player list \<Rightarrow> error + segment list" where
  "chain_traces [] = Inr []"
| "chain_traces (pl # pls) =
     (case get_traces pl of
        Inl e \<Rightarrow> Inl e
      | Inr ts \<Rightarrow> (case chain_traces pls of Inl e \<Rightarrow> Inl e | Inr rest \<Rightarrow> Inr (ts @ rest)))"

text \<open>
  The collision loop of \<^verbatim>\<open>Board.think\<close>.  The players already checked are kept in
  \<open>checked\<close>; the chain of traces is built anew for every player from the dict as it is at
  that moment, and a dead player returns before consuming it.
\<close>

fun check_players ::
  "(int \<times> Player) list \<Rightarrow> (int \<times> Player) list \<Rightarrow> error + (int \<times> Player) list" where
  "check_players checked [] = Inr checked"
| "check_players checked ((k, p) # rest) =
     (if dead p then check_players (checked @ [(k, p)]) rest
      else (case chain_traces (map snd (checked @ (k, p) # rest)) of
              Inl e \<Rightarrow> Inl e
            | Inr all_traces \<Rightarrow>
                (case check_collision p all_traces of
                   Inl e \<Rightarrow> Inl e
                 | Inr p' \<Rightarrow> check_players (checked @ [(k, p')]) rest)))"

definition Board_think :: "InputController \<Rightarrow> real \<Rightarrow> Board \<Rightarrow> error + Board" where
  "Board_think inc delta_ms b =
     (case process_input inc b of
        Inl e \<Rightarrow> Inl e
      | Inr b1 \<Rightarrow>
          (case check_players [] (move_players delta_ms (players b1)) of
             Inl e \<Rightarrow> Inl e
           | Inr ps \<Rightarrow> Inr (b1\<lparr>players := ps\<rparr>)))"


subsection \<open>TronGame\<close>






subsection \<open>Sequences of calls on one player\<close>

datatype player_op =
  SetDirection real
| SetSpeed real
| Move real
| CheckCollision "segment list"

fun apply_op :: "player_op \<Rightarrow> Player \<Rightarrow> error + Player" where
  "apply_op (SetDirection d) p = Inr (set_direction d p)"
| "apply_op (SetSpeed s) p = Inr (set_speed s p)"
| "apply_op (Move delta_ms) p = Inr (move delta_ms p)"
| "apply_op (CheckCollision all_traces) p = check_collision p all_traces"

fun run_ops :: "player_op list \<Rightarrow> Player \<Rightarrow> error + Player" where
  "run_ops [] p = Inr p"
| "run_ops (c # rest) p = (case apply_op c p of Inl e \<Rightarrow> Inl e | Inr p' \<Rightarrow> run_ops rest p')"

definition nonneg_op :: "player_op \<Rightarrow> bool" where
  "nonneg_op c = (case c of Move delta_ms \<Rightarrow> 0 \<le> delta_ms | _ \<Rightarrow> True)"

definition zero_length :: "segment \<Rightarrow> bool" where
  "zero_length s = (fst s = snd s)"

subsection \<open>Notions used to state the properties\<close>

text \<open>
  Two segments cross properly when they are not parallel and meet in a point interior to
  both: \<open>p1 + s (p2 - p1) = p3 + t (p4 - p3)\<close> with \<open>0 < s < 1\<close> and \<open>0 < t < 1\<close>.
\<close>

definition properly_cross :: "segment \<Rightarrow> segment \<Rightarrow> bool" where
  "properly_cross a b =
     (numerator a b \<noteq> 0 \<and>
      (\<exists>s t. 0 < s \<and> s < 1 \<and> 0 < t \<and> t < 1 \<and>
         fst (fst a) + s * (fst (snd a) - fst (fst a)) = fst (fst b) + t * (fst (snd b) - fst (fst b)) \<and>
         snd (fst a) + s * (snd (snd a) - snd (fst a)) = snd (fst b) + t * (snd (snd b) - snd (fst b))))"

text \<open>
  What the constructors establish and every operation keeps: the keys of the dict are
  distinct, every trail has its spawn point, and the local player is in the dict.
\<close>

definition wf_board :: "Board \<Rightarrow> bool" where
  "wf_board b =
     (distinct (map fst (players b)) \<and>
      list_all (\<lambda>(k, p). traces p \<noteq> []) (players b) \<and>
      local_player b \<in> set (map fst (players b)))"

text \<open>The result of one player's collision check against the traces \<open>snapshot\<close>.\<close>

definition checked_against :: "segment list \<Rightarrow> Player \<Rightarrow> Player" where
  "checked_against snapshot p =
     (if dead p then p else check_loop (last (traces p), pos p) snapshot p)"

section \<open>Geometry: the three branches of the intersection test\<close>

lemma isclose_zero_iff: "isclose x 0 \<longleftrightarrow> x = 0"
proof -
  have "\<bar>x\<bar> \<le> \<bar>x\<bar> / 10 ^ 9 \<longleftrightarrow> x = 0"
    by (auto simp: field_simps)
  then show ?thesis
    by (auto simp: isclose_def isclose_tol_def abs_mult)
qed

lemma collides_unfold:
  "collides ((x1, y1), (x2, y2)) ((x3, y3), (x4, y4)) =
     (let da = (x4 - x3) * (y1 - y3) - (y4 - y3) * (x1 - x3);
          db = (x2 - x1) * (y1 - y3) - (y2 - y1) * (x1 - x3);
          n = (y4 - y3) * (x2 - x1) - (x4 - x3) * (y2 - y1)
      in if isclose n 0 \<and> isclose da 0 then True
         else if isclose n 0 then False
         else 0 < da / n \<and> da / n < 1 \<and> 0 < db / n \<and> db / n < 1)"
  by (simp add: collides_def numerator_def denominator_a_def denominator_b_def Let_def)

lemma shared_endpoint_zero:
  fixes x1 y1 x2 y2 x3 y3 x4 y4 :: real
  defines "da \<equiv> (x4 - x3) * (y1 - y3) - (y4 - y3) * (x1 - x3)"
    and "db \<equiv> (x2 - x1) * (y1 - y3) - (y2 - y1) * (x1 - x3)"
  assumes "(x1, y1) = (x3, y3) \<or> (x1, y1) = (x4, y4) \<or> (x2, y2) = (x3, y3)"
  shows "da = 0 \<or> db = 0"
  using assms by (auto simp: algebra_simps)

lemma collides_rnd_id: "collides_rnd (\<lambda>x. x) a b = collides a b"
  by (simp add: collides_rnd_def collides_def isclose_rnd_def isclose_def isclose_tol_rnd_def
      isclose_tol_def numerator_rnd_def numerator_def denominator_a_rnd_def denominator_a_def
      denominator_b_rnd_def denominator_b_def)

text \<open>
  For the three placements of a common end point below, the zero denominator does not
  depend on exact arithmetic: it comes out of any rounding that maps zero to zero and
  commutes with negation, so the rounded function reports no intersection either.
\<close>

lemma shared_endpoint_any_rounding:
  assumes z: "rnd 0 = 0" and odd: "\<And>x. rnd (- x) = - rnd x"
    and n: "\<not> isclose_rnd rnd (numerator_rnd rnd (p1, p2) (p3, p4)) 0"
    and e: "p1 = p3 \<or> p1 = p4 \<or> p2 = p3"
  shows "\<not> collides_rnd rnd (p1, p2) (p3, p4)"
proof -
  have sw: "rnd (x - y) = - rnd (y - x)" for x y
    using odd [of "y - x"] by simp
  have "denominator_a_rnd rnd (p1, p2) (p3, p4) = 0 \<or> denominator_b_rnd rnd (p1, p2) (p3, p4) = 0"
    using e
  proof (elim disjE)
    assume "p1 = p3"
    then show ?thesis by (simp add: denominator_a_rnd_def z)
  next
    assume "p1 = p4"
    then show ?thesis by (simp add: denominator_a_rnd_def z mult.commute)
  next
    assume "p2 = p3"
    then have "denominator_b_rnd rnd (p1, p2) (p3, p4) = 0"
      by (simp add: denominator_b_rnd_def z sw [of "fst p1" "fst p3"] sw [of "snd p1" "snd p3"]
          mult.commute)
    then show ?thesis ..
  qed
  then have "rnd (denominator_a_rnd rnd (p1, p2) (p3, p4) / numerator_rnd rnd (p1, p2) (p3, p4)) = 0
      \<or> rnd (denominator_b_rnd rnd (p1, p2) (p3, p4) / numerator_rnd rnd (p1, p2) (p3, p4)) = 0"
    by (auto simp: z)
  with n show ?thesis
    by (auto simp: collides_rnd_def Let_def)
qed

text \<open>
  The fourth placement, both segments ending in the same point, is different: there \<open>da\<close>
  and \<open>n\<close> are equal in exact arithmetic and \<open>u_a = 1\<close>, but the two are rounded along
  different paths, and a quotient just below 1 passes the test of the third branch.
\<close>

lemma round_tenths_zero: "round_tenths 0 = 0"
  by (simp add: round_tenths_def)

lemma round_tenths_minus: "round_tenths (- x) = - round_tenths x"
  by (simp add: round_tenths_def)

lemma common_end_rounded:
  "collides_rnd round_tenths ((- 7 / 5, 0), (1, - 3 / 10)) ((- 4 / 5, 4 / 5), (1, - 3 / 10))"
  by (simp add: collides_rnd_def isclose_rnd_def isclose_tol_rnd_def numerator_rnd_def
      denominator_a_rnd_def denominator_b_rnd_def round_tenths_def Let_def)

lemma common_end_exact:
  "\<not> collides ((- 7 / 5, 0), (1, - 3 / 10)) ((- 4 / 5, 4 / 5), (1, - 3 / 10))"
  by (simp add: collides_def isclose_zero_iff numerator_def denominator_a_def denominator_b_def
      Let_def)

text \<open>
  Claim C1, as amended.  For segments \<open>a = (p1, p2)\<close> and \<open>b = (p3, p4)\<close>, with \<open>da\<close>, \<open>db\<close>
  and \<open>n\<close> the two denominators and the numerator of the source: \<^const>\<open>collides\<close> is true
  when \<open>n\<close> and \<open>da\<close> both pass the zero test, false when only \<open>n\<close> passes it, and otherwise
  true exactly when \<open>0 < u_a < 1\<close> and \<open>0 < u_b < 1\<close> for \<open>u_a = da / n\<close>, \<open>u_b = db / n\<close>.  In
  that third branch a parameter equal to 0 or 1 gives false; this is so when \<open>a\<close> starts at
  an end point of \<open>b\<close> or ends where \<open>b\<close> starts, because \<open>da\<close> or \<open>db\<close> is then zero.
  Segments with a common end point are not reported as non-intersecting in general: when
  they are collinear the first branch returns true, and nothing is stated for two
  segments that end in the same point, where the answer depends on the rounding.
\<close>

theorem collides_contract:
  "(let a = ((x1, y1), (x2, y2)); b = ((x3, y3), (x4, y4));
        da = (x4 - x3) * (y1 - y3) - (y4 - y3) * (x1 - x3);
        db = (x2 - x1) * (y1 - y3) - (y2 - y1) * (x1 - x3);
        n = (y4 - y3) * (x2 - x1) - (x4 - x3) * (y2 - y1);
        u_a = da / n; u_b = db / n
    in (isclose n 0 \<and> isclose da 0 \<longrightarrow> collides a b)
     \<and> (isclose n 0 \<and> \<not> isclose da 0 \<longrightarrow> \<not> collides a b)
     \<and> (\<not> isclose n 0 \<longrightarrow> collides a b = (0 < u_a \<and> u_a < 1 \<and> 0 < u_b \<and> u_b < 1))
     \<and> (\<not> isclose n 0 \<and> (u_a = 0 \<or> u_a = 1 \<or> u_b = 0 \<or> u_b = 1) \<longrightarrow> \<not> collides a b)
     \<and> (\<not> isclose n 0 \<and> (fst a = fst b \<or> fst a = snd b \<or> snd a = fst b)
          \<longrightarrow> (da = 0 \<or> db = 0) \<and> (u_a = 0 \<or> u_b = 0) \<and> \<not> collides a b)
     \<and> (isclose n 0 \<and> (fst a = fst b \<or> fst a = snd b) \<longrightarrow> collides a b))"
proof -
  define da where "da = (x4 - x3) * (y1 - y3) - (y4 - y3) * (x1 - x3)"
  define db where "db = (x2 - x1) * (y1 - y3) - (y2 - y1) * (x1 - x3)"
  define n where "n = (y4 - y3) * (x2 - x1) - (x4 - x3) * (y2 - y1)"
  have c: "collides ((x1, y1), (x2, y2)) ((x3, y3), (x4, y4)) =
      (if isclose n 0 \<and> isclose da 0 then True else if isclose n 0 then False
       else 0 < da / n \<and> da / n < 1 \<and> 0 < db / n \<and> db / n < 1)"
    unfolding da_def db_def n_def by (simp add: collides_unfold Let_def)
  have e: "da = 0 \<or> db = 0"
    if "(x1, y1) = (x3, y3) \<or> (x1, y1) = (x4, y4) \<or> (x2, y2) = (x3, y3)"
    unfolding da_def db_def using shared_endpoint_zero [OF that] .
  have s: "da = 0" if "(x1, y1) = (x3, y3) \<or> (x1, y1) = (x4, y4)"
    using that unfolding da_def by (auto simp: algebra_simps)
  show ?thesis
    unfolding Let_def da_def [symmetric] db_def [symmetric] n_def [symmetric] fst_conv snd_conv
    using c e s by (auto simp: isclose_zero_iff)
qed

theorem collides_contract_witness:
  "\<not> collides ((0, 0), (1, 0)) ((1, 0), (1, 1)) \<and> collides ((0, 0), (2, 2)) ((0, 2), (2, 0))
   \<and> collides ((0, 0), (1, 0)) ((2, 0), (3, 0)) \<and> \<not> collides ((0, 0), (1, 0)) ((0, 1), (1, 1))
   \<and> \<not> collides ((1, 0), (2, 3)) ((1, 0), (4, 1)) \<and> \<not> collides ((4, 1), (2, 3)) ((1, 0), (4, 1))
   \<and> collides ((0, 0), (1, 0)) ((0, 0), (2, 0))"
  using collides_contract [of 0 0 1 0 1 0 1 1] collides_contract [of 0 0 2 2 0 2 2 0]
    collides_contract [of 0 0 1 0 2 0 3 0] collides_contract [of 0 0 1 0 0 1 1 1]
    collides_contract [of 1 0 2 3 1 0 4 1] collides_contract [of 4 1 2 3 1 0 4 1]
    collides_contract [of 0 0 1 0 0 0 2 0]
  by (simp add: Let_def isclose_zero_iff)

text \<open>
  The claim as it stands fails on collinear segments: the second starts where the first
  ends, they have exactly that point in common, and the first branch returns true.
\<close>

theorem shared_endpoint_counterexample:
  "collides ((0, 0), (1, 0)) ((1, 0), (2, 0))"
  by (simp add: collides_def numerator_def denominator_a_def isclose_zero_iff)

lemma check_loop_dead:
  "check_loop mine ts p = p\<lparr>dead := dead p \<or> (\<exists>t \<in> set ts. t \<noteq> mine \<and> collides mine t)\<rparr>"
  by (induction ts arbitrary: p) (auto simp: die_def)

lemma pymod_zero: "pymod 0 m = 0"
  by (simp add: pymod_def)

section \<open>Player: movement\<close>

text \<open>
  Claim C3.  \<^const>\<open>move\<close> leaves a dead player as it is.  For a living player and
  \<open>delta_ms \<ge> 0\<close> the position becomes \<open>(x + v sin \<theta>, y - v cos \<theta>)\<close> with
  \<open>v = speed * delta_ms / 1000\<close> and \<open>\<theta>\<close> the direction in radians, and afterwards the
  player is dead exactly when the new position has \<open>x\<^sup>2 + y\<^sup>2 > 120\<^sup>2\<close>; a position on
  or inside the circle leaves the player alive.
\<close>

theorem move_contract:
  "(dead p \<longrightarrow> move delta_ms p = p) \<and>
   (\<not> dead p \<and> 0 \<le> delta_ms \<longrightarrow>
      (let v = speed p * delta_ms / 1000;
           \<theta> = direction p * pi / 180;
           x = fst (pos p) + v * sin \<theta>;
           y = snd (pos p) - v * cos \<theta>
       in move delta_ms p = p\<lparr>pos := (x, y), dead := (x\<^sup>2 + y\<^sup>2 > 120\<^sup>2)\<rparr>
          \<and> pos (move delta_ms p) = (x, y)
          \<and> (dead (move delta_ms p) \<longleftrightarrow> x\<^sup>2 + y\<^sup>2 > 120\<^sup>2)
          \<and> (x\<^sup>2 + y\<^sup>2 \<le> 120\<^sup>2 \<longrightarrow> \<not> dead (move delta_ms p))))"
proof -
  have r: "direction p * (2 * pi) / 360 = direction p * pi / 180"
    by simp
  show ?thesis
    by (auto simp: move_def Let_def die_def r)
qed

theorem move_contract_witness:
  "pos (move 1000 (Player_init (-50, 0))) = (-50, -60)
   \<and> \<not> dead (move 1000 (Player_init (-50, 0)))
   \<and> pos (move 1000 (Player_init (0, -60))) = (0, -120)
   \<and> \<not> dead (move 1000 (Player_init (0, -60)))
   \<and> dead (move 1000 (Player_init (0, -61)))
   \<and> move 1000 (die (Player_init (0, 0))) = die (Player_init (0, 0))"
  using move_contract [of "Player_init (-50, 0)" 1000]
    move_contract [of "Player_init (0, -60)" 1000]
    move_contract [of "Player_init (0, -61)" 1000]
    move_contract [of "die (Player_init (0, 0))" 1000]
  by (simp add: Player_init_def die_def Let_def)

section \<open>Player: collision check\<close>

text \<open>
  Claim C4.  On a living player \<^const>\<open>check_collision\<close> skips the candidates equal, as
  pairs of points, to the player's own latest trace \<open>(traces[-1], pos)\<close> and marks the
  player dead exactly when some other candidate collides with that trace.  Removing the
  equal candidates changes nothing, and candidates all equal to the latest trace leave the
  player alive, whoever they come from.
\<close>

theorem check_collision_contract:
  "(dead p \<longrightarrow> check_collision p all_traces = Inr p) \<and>
   (\<not> dead p \<and> traces p \<noteq> [] \<longrightarrow>
      (let mine = (last (traces p), pos p)
       in check_collision p all_traces =
            Inr (p\<lparr>dead := (\<exists>t \<in> set all_traces. t \<noteq> mine \<and> collides mine t)\<rparr>)
          \<and> check_collision p (filter (\<lambda>t. t \<noteq> mine) all_traces) = check_collision p all_traces
          \<and> ((\<forall>t \<in> set all_traces. t = mine) \<longrightarrow> check_collision p all_traces = Inr p)))"
proof -
  have alive: "check_collision p ts =
      Inr (p\<lparr>dead := (\<exists>t \<in> set ts. t \<noteq> (last (traces p), pos p)
                           \<and> collides (last (traces p), pos p) t)\<rparr>)"
    if "\<not> dead p" "traces p \<noteq> []" for ts
    using that by (cases "traces p") (simp_all add: check_collision_def my_latest_trace_def check_loop_dead)
  have same: "p\<lparr>dead := False\<rparr> = p" if "\<not> dead p"
    using that by simp
  show ?thesis
    unfolding Let_def
  proof (intro conjI impI; (elim conjE)?)
    show "check_collision p all_traces = Inr p" if "dead p"
      using that by (simp add: check_collision_def)
  next
    assume "\<not> dead p" "traces p \<noteq> []"
    then show "check_collision p all_traces =
      Inr (p\<lparr>dead := (\<exists>t \<in> set all_traces. t \<noteq> (last (traces p), pos p)
                           \<and> collides (last (traces p), pos p) t)\<rparr>)"
      by (rule alive)
  next
    assume a: "\<not> dead p" "traces p \<noteq> []"
    show "check_collision p (filter (\<lambda>t. t \<noteq> (last (traces p), pos p)) all_traces)
        = check_collision p all_traces"
    proof -
      have "(\<exists>t \<in> set (filter (\<lambda>t. t \<noteq> (last (traces p), pos p)) all_traces).
               t \<noteq> (last (traces p), pos p) \<and> collides (last (traces p), pos p) t)
          = (\<exists>t \<in> set all_traces.
               t \<noteq> (last (traces p), pos p) \<and> collides (last (traces p), pos p) t)"
        by auto
      then show ?thesis
        by (simp only: alive [OF a])
    qed
  next
    assume a: "\<not> dead p" "traces p \<noteq> []"
      and e: "\<forall>t \<in> set all_traces. t = (last (traces p), pos p)"
    have "(\<exists>t \<in> set all_traces. t \<noteq> (last (traces p), pos p)
                           \<and> collides (last (traces p), pos p) t) = False"
      using e by blast
    then show "check_collision p all_traces = Inr p"
      using same [OF a(1)] by (simp only: alive [OF a])
  qed
qed

theorem check_collision_contract_witness:
  "check_collision (Player_init (0, 0)\<lparr>pos := (2, 2)\<rparr>) [((0, 0), (2, 2))]
     = Inr (Player_init (0, 0)\<lparr>pos := (2, 2)\<rparr>)
   \<and> check_collision (Player_init (0, 0)\<lparr>pos := (2, 2)\<rparr>) [((0, 0), (2, 2)), ((0, 2), (2, 0))]
     = Inr (Player_init (0, 0)\<lparr>pos := (2, 2), dead := True\<rparr>)"
  using check_collision_contract [of "Player_init (0, 0)\<lparr>pos := (2, 2)\<rparr>" "[((0, 0), (2, 2))]"]
    check_collision_contract [of "Player_init (0, 0)\<lparr>pos := (2, 2)\<rparr>"
      "[((0, 0), (2, 2)), ((0, 2), (2, 0))]"]
  by (simp add: Player_init_def Let_def collides_def numerator_def denominator_a_def
      denominator_b_def isclose_zero_iff)

section \<open>Player: steering and speed\<close>

text \<open>
  Claim C5.  \<^const>\<open>set_direction\<close> with the current direction changes nothing.  With any
  other direction that is not a reversal by 180 degrees it sets the direction and appends
  the current position to the trail; the earlier waypoints and the position stay.
\<close>

theorem set_direction_contract:
  "(d = direction p \<longrightarrow> set_direction d p = p) \<and>
   (d \<noteq> direction p \<and> pymod (d - direction p) 360 \<noteq> 180 \<longrightarrow>
      set_direction d p = p\<lparr>direction := d, traces := traces p @ [pos p]\<rparr>
      \<and> direction (set_direction d p) = d
      \<and> traces (set_direction d p) = traces p @ [pos p]
      \<and> take (length (traces p)) (traces (set_direction d p)) = traces p
      \<and> pos (set_direction d p) = pos p)"
  by (auto simp: set_direction_def pymod_zero)

theorem set_direction_contract_witness:
  "set_direction 0 (Player_init (-50, 0)) = Player_init (-50, 0)
   \<and> set_direction 72 (Player_init (-50, 0))
       = Player_init (-50, 0)\<lparr>direction := 72, traces := [(-50, 0), (-50, 0)]\<rparr>"
proof -
  have "pymod (72 - 0) 360 \<noteq> 180"
    by (simp add: pymod_def)
  then show ?thesis
    using set_direction_contract [of 0 "Player_init (-50, 0)"]
      set_direction_contract [of 72 "Player_init (-50, 0)"]
    by (simp add: Player_init_def)
qed

text \<open>
  Claim C9.  A negative speed leaves the player unchanged, every speed from zero upwards
  is stored, and a direction that differs from the current one by 180 modulo 360 leaves
  the player unchanged.  Neither call has a failing branch: each returns a player.
\<close>

theorem invalid_input_noop:
  "(s < 0 \<longrightarrow> set_speed s p = p) \<and>
   (0 \<le> s \<longrightarrow> set_speed s p = p\<lparr>speed := s\<rparr>) \<and>
   (pymod (d - direction p) 360 = 180 \<longrightarrow> set_direction d p = p) \<and>
   (\<forall>e. apply_op (SetSpeed s) p \<noteq> Inl e) \<and>
   (\<forall>e. apply_op (SetDirection d) p \<noteq> Inl e)"
  by (auto simp: set_speed_def set_direction_def)

theorem invalid_input_noop_witness:
  "set_speed (-1) (Player_init (-50, 0)) = Player_init (-50, 0)
   \<and> speed (set_speed 0 (Player_init (-50, 0))) = 0
   \<and> set_direction 180 (Player_init (-50, 0)) = Player_init (-50, 0)
   \<and> set_direction (-180) (Player_init (-50, 0)) = Player_init (-50, 0)
   \<and> set_direction 540 (Player_init (-50, 0)) = Player_init (-50, 0)"
proof -
  have "pymod (180 - 0) 360 = 180" "pymod (- 180 - 0) 360 = 180" "pymod (540 - 0) 360 = 180"
    by (simp_all add: pymod_def)
  then show ?thesis
    using invalid_input_noop [of "-1" "Player_init (-50, 0)" 180]
      invalid_input_noop [of 0 "Player_init (-50, 0)" "-180"]
      invalid_input_noop [of 0 "Player_init (-50, 0)" 540]
    by (simp add: Player_init_def)
qed

section \<open>Player: what each operation may change\<close>

text \<open>
  Claim C10.  \<^const>\<open>check_collision\<close> changes at most the \<open>dead\<close> flag, and never from
  true to false; it returns a player whenever the player is dead or has a trail.
  \<^const>\<open>move\<close> changes at most the position and the \<open>dead\<close> flag.  Neither touches the
  trail, the direction or the speed; \<^const>\<open>set_speed\<close> keeps the trail, and
  \<^const>\<open>set_direction\<close> keeps it or appends the position.
\<close>

theorem frame_of_check_and_move:
  "(\<forall>p'. check_collision p all_traces = Inr p' \<longrightarrow>
       p' = p\<lparr>dead := dead p'\<rparr> \<and> traces p' = traces p \<and> direction p' = direction p
       \<and> speed p' = speed p \<and> pos p' = pos p \<and> (dead p \<longrightarrow> dead p')) \<and>
   (dead p \<or> traces p \<noteq> [] \<longrightarrow> (\<exists>p'. check_collision p all_traces = Inr p')) \<and>
   move delta_ms p = p\<lparr>pos := pos (move delta_ms p), dead := dead (move delta_ms p)\<rparr> \<and>
   traces (move delta_ms p) = traces p \<and> direction (move delta_ms p) = direction p \<and>
   speed (move delta_ms p) = speed p \<and> (dead p \<longrightarrow> dead (move delta_ms p)) \<and>
   traces (set_speed s p) = traces p \<and>
   (traces (set_direction d p) = traces p \<or> traces (set_direction d p) = traces p @ [pos p])"
  by (cases "traces p")
     (auto simp: check_collision_def my_latest_trace_def check_loop_dead move_def Let_def
        die_def set_speed_def set_direction_def)

theorem frame_of_check_and_move_witness:
  "check_collision (Player_init (0, 0)\<lparr>pos := (2, 2)\<rparr>) [((0, 2), (2, 0))]
     = Inr (Player_init (0, 0)\<lparr>pos := (2, 2), dead := True\<rparr>)
   \<and> traces (move 1000 (Player_init (-50, 0))) = [(-50, 0)]"
  using frame_of_check_and_move [of "Player_init (0, 0)\<lparr>pos := (2, 2)\<rparr>" "[((0, 2), (2, 0))]" 0 0 0]
    frame_of_check_and_move [of "Player_init (-50, 0)" "[]" 1000 0 0]
  by (simp add: Player_init_def check_collision_def my_latest_trace_def die_def collides_def
      numerator_def denominator_a_def denominator_b_def isclose_zero_iff)

section \<open>Board: one tick\<close>

lemma pair_up_snoc: "pair_up x (ys @ [z]) = pair_up x ys @ [(last (x # ys), z)]"
  by (induction ys arbitrary: x) auto

lemma get_traces_nonempty:
  "traces p \<noteq> [] \<Longrightarrow>
   get_traces p = Inr (pair_up (hd (traces p)) (tl (traces p)) @ [(last (traces p), pos p)])"
  by (cases "traces p") (simp_all add: get_traces_def pair_up_snoc)

lemma get_traces_empty: "traces p = [] \<Longrightarrow> get_traces p = Inl IndexError"
  by (simp add: get_traces_def)

lemma get_traces_frame: "traces p' = traces p \<Longrightarrow> pos p' = pos p \<Longrightarrow> get_traces p' = get_traces p"
  by (cases "traces p") (simp_all add: get_traces_def)

lemma chain_traces_cong:
  "map get_traces ps = map get_traces qs \<Longrightarrow> chain_traces ps = chain_traces qs"
proof (induction ps arbitrary: qs)
  case Nil
  then show ?case by simp
next
  case (Cons p ps)
  then obtain q qs' where q: "qs = q # qs'" "get_traces p = get_traces q"
    "map get_traces ps = map get_traces qs'"
    by (cases qs) auto
  from Cons.IH [OF q(3)] q(1,2) show ?case
    by (simp split: sum.splits)
qed

lemma chain_traces_total:
  "list_all (\<lambda>p. traces p \<noteq> []) ps \<Longrightarrow> \<exists>snap. chain_traces ps = Inr snap"
proof (induction ps)
  case Nil
  then show ?case by simp
next
  case (Cons p ps)
  then obtain snap where "chain_traces ps = Inr snap" and "traces p \<noteq> []"
    by auto
  then show ?case
    by (simp add: get_traces_nonempty)
qed

lemma chain_traces_live:
  "chain_traces ps = Inr snap \<Longrightarrow> q \<in> set ps \<Longrightarrow>
   traces q \<noteq> [] \<and> (last (traces q), pos q) \<in> set snap"
proof (induction ps arbitrary: snap)
  case Nil
  then show ?case by simp
next
  case (Cons p ps)
  from Cons.prems(1) obtain ts rest where s: "get_traces p = Inr ts" "chain_traces ps = Inr rest"
    "snap = ts @ rest"
    by (auto split: sum.splits)
  have ne: "traces p \<noteq> []"
    using s(1) get_traces_empty [of p] by auto
  have lp: "(last (traces p), pos p) \<in> set ts"
    using s(1) get_traces_nonempty [OF ne] by auto
  show ?case
  proof (cases "q = p")
    case True
    then show ?thesis using ne lp s(3) by simp
  next
    case False
    then have "q \<in> set ps" using Cons.prems(2) by simp
    from Cons.IH [OF s(2) this] s(3) show ?thesis by simp
  qed
qed

lemma checked_against_frame:
  "traces (checked_against snap p) = traces p" "pos (checked_against snap p) = pos p"
  by (simp_all add: checked_against_def check_loop_dead)

lemma checked_against_dead:
  "dead (checked_against snap p) \<longleftrightarrow>
     dead p \<or> (\<exists>t \<in> set snap. t \<noteq> (last (traces p), pos p) \<and> collides (last (traces p), pos p) t)"
  by (simp add: checked_against_def check_loop_dead)

lemma check_players_snapshot:
  "chain_traces (map snd (checked @ rest)) = Inr snap \<Longrightarrow>
   check_players checked rest = Inr (checked @ map (\<lambda>(k, p). (k, checked_against snap p)) rest)"
proof (induction rest arbitrary: checked)
  case Nil
  then show ?case by simp
next
  case (Cons kp rest)
  obtain k p where kp: "kp = (k, p)"
    by (cases kp)
  show ?case
  proof (cases "dead p")
    case True
    have "chain_traces (map snd ((checked @ [(k, p)]) @ rest)) = Inr snap"
      using Cons.prems kp by simp
    from Cons.IH [OF this] True kp show ?thesis
      by (simp add: checked_against_def)
  next
    case False
    have c: "chain_traces (map snd (checked @ (k, p) # rest)) = Inr snap"
      using Cons.prems kp by simp
    have ne: "traces p \<noteq> []"
      using chain_traces_live [OF c, of p] by simp
    define p' where "p' = checked_against snap p"
    have cc: "check_collision p snap = Inr p'"
      using False ne
      by (cases "traces p") (simp_all add: check_collision_def my_latest_trace_def p'_def checked_against_def)
    have "get_traces p' = get_traces p"
      unfolding p'_def by (rule get_traces_frame) (rule checked_against_frame)+
    then have "map get_traces (map snd ((checked @ [(k, p')]) @ rest))
        = map get_traces (map snd (checked @ (k, p) # rest))"
      by simp
    from chain_traces_cong [OF this] c
    have "chain_traces (map snd ((checked @ [(k, p')]) @ rest)) = Inr snap"
      by simp
    from Cons.IH [OF this] False c cc kp show ?thesis
      by (simp add: p'_def)
  qed
qed

lemma update_player_present:
  "k \<in> set (map fst ps) \<Longrightarrow>
   update_player k f ps = Inr (map (\<lambda>(k', p). if k' = k then (k', f p) else (k', p)) ps)"
proof -
  assume "k \<in> set (map fst ps)"
  then have "map_of ps k \<noteq> None"
    by (simp add: map_of_eq_None_iff)
  then show ?thesis
    by (auto simp: update_player_def)
qed

lemma set_direction_traces_nonempty: "traces p \<noteq> [] \<Longrightarrow> traces (set_direction d p) \<noteq> []"
  by (simp add: set_direction_def)

lemma move_frame: "traces (move delta_ms p) = traces p"
  by (simp add: move_def Let_def die_def)

lemma process_input_wf:
  assumes "wf_board b"
  shows "\<exists>b1. process_input inc b = Inr b1 \<and> wf_board b1"
proof (cases "first_pressed inc petal_range")
  case None
  then show ?thesis using assms by (simp add: process_input_def)
next
  case (Some i)
  define f where "f = (\<lambda>(k', p). if k' = local_player b then (k', set_direction (real i * 360 / 10) p)
     else (k', p))"
  have u: "update_player (local_player b) (set_direction (real i * 360 / 10)) (players b)
      = Inr (map f (players b))"
    unfolding f_def using assms by (intro update_player_present) (simp add: wf_board_def)
  have keys: "map fst (map f (players b)) = map fst (players b)"
    by (simp add: f_def case_prod_beta)
  have tr: "list_all (\<lambda>(k, p). traces p \<noteq> []) (map f (players b))"
    using assms
    by (fastforce simp: wf_board_def list_all_iff f_def set_direction_traces_nonempty
        split: if_splits)
  have "wf_board (b\<lparr>players := map f (players b)\<rparr>)"
    using assms keys tr unfolding wf_board_def
    by (simp del: map_map)
  then show ?thesis
    using Some u by (simp add: process_input_def)
qed

lemma Board_think_snapshot:
  assumes "wf_board b"
  shows "\<exists>b1 snapshot. process_input inc b = Inr b1 \<and> wf_board b1 \<and>
      chain_traces (map snd (move_players delta_ms (players b1))) = Inr snapshot \<and>
      Board_think inc delta_ms b =
        Inr (b1\<lparr>players := map (\<lambda>(k, p). (k, checked_against snapshot p))
                             (move_players delta_ms (players b1))\<rparr>)"
proof -
  from process_input_wf [OF assms] obtain b1 where b1: "process_input inc b = Inr b1" "wf_board b1"
    by blast
  have "list_all (\<lambda>p. traces p \<noteq> []) (map snd (move_players delta_ms (players b1)))"
    using b1(2) by (auto simp: wf_board_def list_all_iff move_players_def move_frame)
  from chain_traces_total [OF this] obtain snapshot
    where s: "chain_traces (map snd (move_players delta_ms (players b1))) = Inr snapshot"
    by blast
  then have "chain_traces (map snd ([] @ move_players delta_ms (players b1))) = Inr snapshot"
    by simp
  from check_players_snapshot [OF this] b1 s show ?thesis
    by (simp add: Board_think_def)
qed


lemma properly_cross_collides:
  assumes "properly_cross a b"
  shows "collides a b \<and> collides b a \<and> a \<noteq> b"
proof -
  obtain x1 y1 x2 y2 x3 y3 x4 y4 where a: "a = ((x1, y1), (x2, y2))" and b: "b = ((x3, y3), (x4, y4))"
    by (metis prod.collapse)
  define n where "n = (y4 - y3) * (x2 - x1) - (x4 - x3) * (y2 - y1)"
  define da where "da = (x4 - x3) * (y1 - y3) - (y4 - y3) * (x1 - x3)"
  define db where "db = (x2 - x1) * (y1 - y3) - (y2 - y1) * (x1 - x3)"
  from assms obtain s t where n0: "n \<noteq> 0" and st: "0 < s" "s < 1" "0 < t" "t < 1"
    and ex: "x1 + s * (x2 - x1) = x3 + t * (x4 - x3)"
    and ey: "y1 + s * (y2 - y1) = y3 + t * (y4 - y3)"
    unfolding properly_cross_def a b n_def numerator_def Let_def by auto
  have hx: "x1 - x3 = t * (x4 - x3) - s * (x2 - x1)"
    using ex by (simp add: algebra_simps)
  have hy: "y1 - y3 = t * (y4 - y3) - s * (y2 - y1)"
    using ey by (simp add: algebra_simps)
  have "da = s * n"
    unfolding da_def n_def hx hy by (simp add: algebra_simps)
  then have ua: "da / n = s"
    using n0 by simp
  have "db = t * n"
    unfolding db_def n_def hx hy by (simp add: algebra_simps)
  then have ub: "db / n = t"
    using n0 by simp
  have ab: "collides a b"
    unfolding a b collides_unfold Let_def da_def [symmetric] db_def [symmetric] n_def [symmetric]
    using n0 ua ub st by (simp add: isclose_zero_iff)
  have n': "(y2 - y1) * (x4 - x3) - (x2 - x1) * (y4 - y3) = - n"
    by (simp add: n_def algebra_simps)
  have da': "(x2 - x1) * (y3 - y1) - (y2 - y1) * (x3 - x1) = - db"
    by (simp add: db_def algebra_simps)
  have db': "(x4 - x3) * (y3 - y1) - (y4 - y3) * (x3 - x1) = - da"
    by (simp add: da_def algebra_simps)
  have ba: "collides b a"
    unfolding a b collides_unfold Let_def n' da' db'
    using n0 ua ub st by (simp add: isclose_zero_iff)
  have "a \<noteq> b"
  proof
    assume "a = b"
    then have "n = 0"
      unfolding a b n_def by simp
    with n0 show False by simp
  qed
  with ab ba show ?thesis by simp
qed

lemma first_pressed_none: "(\<And>i. \<not> inc i) \<Longrightarrow> first_pressed inc xs = None"
  by (induction xs) simp_all

lemma checked_against_kills:
  assumes s: "chain_traces (map snd moved) = Inr snapshot"
    and n: "n < length moved" and m: "m < length moved"
    and c: "collides (last (traces (snd (moved ! n))), pos (snd (moved ! n)))
                (last (traces (snd (moved ! m))), pos (snd (moved ! m)))"
    and ne: "(last (traces (snd (moved ! n))), pos (snd (moved ! n)))
                \<noteq> (last (traces (snd (moved ! m))), pos (snd (moved ! m)))"
  shows "dead (checked_against snapshot (snd (moved ! n)))"
proof -
  have "snd (moved ! m) \<in> set (map snd moved)"
    using m by simp
  from chain_traces_live [OF s this]
  have "(last (traces (snd (moved ! m))), pos (snd (moved ! m))) \<in> set snapshot"
    by simp
  with c ne have "\<exists>t \<in> set snapshot. t \<noteq> (last (traces (snd (moved ! n))), pos (snd (moved ! n)))
      \<and> collides (last (traces (snd (moved ! n))), pos (snd (moved ! n))) t"
    by (intro bexI [of _ "(last (traces (snd (moved ! m))), pos (snd (moved ! m)))"]) auto
  then show ?thesis
    by (simp add: checked_against_dead)
qed

lemma quarter_turn: "90 * (2 * pi) / 360 = pi / 2"
  by simp

lemma half_turn: "180 * (2 * pi) / 360 = pi"
  by simp

lemma get_traces_Inr:
  "get_traces p = Inr ts \<Longrightarrow>
   traces p \<noteq> [] \<and> ts = pair_up (hd (traces p)) (tl (traces p) @ [pos p])"
  by (cases "traces p") (simp_all add: get_traces_def)

lemma chain_traces_concat:
  "chain_traces ps = Inr snap \<Longrightarrow>
   snap = concat (map (\<lambda>p. pair_up (hd (traces p)) (tl (traces p) @ [pos p])) ps)"
proof (induction ps arbitrary: snap)
  case Nil
  then show ?case by simp
next
  case (Cons p ps)
  from Cons.prems obtain ts rest where s: "get_traces p = Inr ts" "chain_traces ps = Inr rest"
    "snap = ts @ rest"
    by (auto split: sum.splits)
  from get_traces_Inr [OF s(1)] Cons.IH [OF s(2)] s(3) show ?case
    by simp
qed

lemma process_input_result:
  assumes "wf_board b"
  shows "process_input inc b =
     Inr (case first_pressed inc petal_range of
            None \<Rightarrow> b
          | Some i \<Rightarrow>
              b\<lparr>players := map (\<lambda>(k, p). if k = local_player b
                                          then (k, set_direction (real i * 360 / 10) p)
                                          else (k, p)) (players b)\<rparr>)"
proof (cases "first_pressed inc petal_range")
  case None
  then show ?thesis by (simp add: process_input_def)
next
  case (Some i)
  have "local_player b \<in> set (map fst (players b))"
    using assms by (simp add: wf_board_def)
  then have u: "update_player (local_player b) (set_direction (real i * 360 / 10)) (players b)
      = Inr (map (\<lambda>(k, p). if k = local_player b
                                          then (k, set_direction (real i * 360 / 10) p)
                                          else (k, p)) (players b))"
    by (rule update_player_present)
  show ?thesis
    by (simp only: process_input_def Some u option.case sum.case)
qed

lemma check_collision_checked:
  "dead p \<or> traces p \<noteq> [] \<Longrightarrow> check_collision p snap = Inr (checked_against snap p)"
  by (cases "traces p")
     (auto simp: check_collision_def my_latest_trace_def checked_against_def)

text \<open>
  Claim C2.  On a well-formed board a tick returns a board, made in three steps.  The input
  sets the local player's direction; then every player is moved by \<^const>\<open>move\<close>; then every
  moved player is checked by \<^const>\<open>check_collision\<close> against one and the same list, the
  traces of all moved players paired up from their waypoints and positions: the checks
  change only \<open>dead\<close> flags, which no trace depends on.  Hence, when the latest traces of two
  players cross properly after the moves, both players are dead at the end of the tick,
  whatever their order in the dict.
\<close>

theorem think_simultaneous_death:
  assumes "wf_board b"
  shows "\<exists>b1 moved snapshot b'.
      process_input inc b = Inr b1 \<and>
      b1 = (case first_pressed inc petal_range of
              None \<Rightarrow> b
            | Some i \<Rightarrow>
                b\<lparr>players := map (\<lambda>(k, p). if k = local_player b
                                            then (k, set_direction (real i * 360 / 10) p)
                                            else (k, p)) (players b)\<rparr>) \<and>
      moved = map (\<lambda>(k, p). (k, move delta_ms p)) (players b1) \<and>
      snapshot = concat (map (\<lambda>(k, p). pair_up (hd (traces p)) (tl (traces p) @ [pos p])) moved) \<and>
      Board_think inc delta_ms b = Inr b' \<and>
      map fst (players b') = map fst moved \<and>
      (\<forall>n < length moved. check_collision (snd (moved ! n)) snapshot = Inr (snd (players b' ! n))) \<and>
      (\<forall>n < length moved. \<forall>m < length moved.
          properly_cross (last (traces (snd (moved ! n))), pos (snd (moved ! n)))
                         (last (traces (snd (moved ! m))), pos (snd (moved ! m)))
          \<longrightarrow> dead (snd (players b' ! n)) \<and> dead (snd (players b' ! m)))"
proof -
  from Board_think_snapshot [OF assms, of inc delta_ms] obtain b1 snapshot
    where b1: "process_input inc b = Inr b1" and wf1: "wf_board b1"
      and s: "chain_traces (map snd (move_players delta_ms (players b1))) = Inr snapshot"
      and t: "Board_think inc delta_ms b =
        Inr (b1\<lparr>players := map (\<lambda>(k, p). (k, checked_against snapshot p))
                             (move_players delta_ms (players b1))\<rparr>)"
    by blast
  define moved where "moved = map (\<lambda>(k, p). (k, move delta_ms p)) (players b1)"
  define b' where "b' = b1\<lparr>players := map (\<lambda>(k, p). (k, checked_against snapshot p)) moved\<rparr>"
  have mv: "move_players delta_ms (players b1) = moved"
    by (simp add: moved_def move_players_def)
  have s': "chain_traces (map snd moved) = Inr snapshot"
    using s by (simp add: mv)
  have t': "Board_think inc delta_ms b = Inr b'"
    using t by (simp add: b'_def mv)
  have b1': "b1 = (case first_pressed inc petal_range of
              None \<Rightarrow> b
            | Some i \<Rightarrow>
                b\<lparr>players := map (\<lambda>(k, p). if k = local_player b
                                            then (k, set_direction (real i * 360 / 10) p)
                                            else (k, p)) (players b)\<rparr>)"
    using b1 process_input_result [OF assms, of inc] by simp
  have snap: "snapshot = concat (map (\<lambda>(k, p). pair_up (hd (traces p)) (tl (traces p) @ [pos p])) moved)"
    using chain_traces_concat [OF s'] by (simp add: case_prod_unfold comp_def)
  have keys: "map fst (players b') = map fst moved"
    by (simp add: b'_def case_prod_beta)
  have fin: "snd (players b' ! n) = checked_against snapshot (snd (moved ! n))"
    if "n < length moved" for n
    using that by (simp add: b'_def case_prod_beta)
  have chk: "check_collision (snd (moved ! n)) snapshot = Inr (snd (players b' ! n))"
    if n: "n < length moved" for n
  proof -
    have "snd (moved ! n) \<in> set (map snd moved)"
      using n by simp
    from chain_traces_live [OF s' this] have "traces (snd (moved ! n)) \<noteq> []"
      by simp
    then show ?thesis
      by (simp add: check_collision_checked fin [OF n])
  qed
  have both: "dead (snd (players b' ! n)) \<and> dead (snd (players b' ! m))"
    if n: "n < length moved" and m: "m < length moved"
      and x: "properly_cross (last (traces (snd (moved ! n))), pos (snd (moved ! n)))
                         (last (traces (snd (moved ! m))), pos (snd (moved ! m)))"
    for n m
  proof -
    from properly_cross_collides [OF x]
    have c1: "collides (last (traces (snd (moved ! n))), pos (snd (moved ! n)))
                (last (traces (snd (moved ! m))), pos (snd (moved ! m)))"
      and c2: "collides (last (traces (snd (moved ! m))), pos (snd (moved ! m)))
                (last (traces (snd (moved ! n))), pos (snd (moved ! n)))"
      and ne: "(last (traces (snd (moved ! n))), pos (snd (moved ! n)))
                \<noteq> (last (traces (snd (moved ! m))), pos (snd (moved ! m)))"
      by simp_all
    have "dead (checked_against snapshot (snd (moved ! n)))"
      by (rule checked_against_kills [OF s' n m c1 ne])
    moreover have "dead (checked_against snapshot (snd (moved ! m)))"
      by (rule checked_against_kills [OF s' m n c2 ne [symmetric]])
    ultimately show ?thesis
      by (simp add: fin [OF n] fin [OF m])
  qed
  show ?thesis
  proof (intro exI conjI)
    show "process_input inc b = Inr b1" by (rule b1)
    show "b1 = (case first_pressed inc petal_range of
              None \<Rightarrow> b
            | Some i \<Rightarrow>
                b\<lparr>players := map (\<lambda>(k, p). if k = local_player b
                                            then (k, set_direction (real i * 360 / 10) p)
                                            else (k, p)) (players b)\<rparr>)"
      by (rule b1')
    show "moved = map (\<lambda>(k, p). (k, move delta_ms p)) (players b1)" by (rule moved_def)
    show "snapshot = concat (map (\<lambda>(k, p). pair_up (hd (traces p)) (tl (traces p) @ [pos p])) moved)"
      by (rule snap)
    show "Board_think inc delta_ms b = Inr b'" by (rule t')
    show "map fst (players b') = map fst moved" by (rule keys)
    show "\<forall>n < length moved. check_collision (snd (moved ! n)) snapshot = Inr (snd (players b' ! n))"
      using chk by blast
    show "\<forall>n < length moved. \<forall>m < length moved.
          properly_cross (last (traces (snd (moved ! n))), pos (snd (moved ! n)))
                         (last (traces (snd (moved ! m))), pos (snd (moved ! m)))
          \<longrightarrow> dead (snd (players b' ! n)) \<and> dead (snd (players b' ! m))"
      using both by blast
  qed
qed

text \<open>
  Two players whose latest traces do not meet before the tick and cross in the origin after
  a move of one second: both die in that tick, and neither dies in a tick of no time.
\<close>

theorem think_simultaneous_death_witness:
  "wf_board \<lparr>players = [(0, Player_init (0, 30)\<lparr>pos := (0, 20)\<rparr>),
                         (1, Player_init (-30, 0)\<lparr>pos := (-20, 0), direction := 90\<rparr>)],
             local_player = 0\<rparr>
   \<and> (\<exists>b'. Board_think (\<lambda>i. False) 1000
             \<lparr>players = [(0, Player_init (0, 30)\<lparr>pos := (0, 20)\<rparr>),
                         (1, Player_init (-30, 0)\<lparr>pos := (-20, 0), direction := 90\<rparr>)],
              local_player = 0\<rparr> = Inr b'
          \<and> dead (snd (players b' ! 0)) \<and> dead (snd (players b' ! 1)))
   \<and> Board_think (\<lambda>i. False) 0
             \<lparr>players = [(0, Player_init (0, 30)\<lparr>pos := (0, 20)\<rparr>),
                         (1, Player_init (-30, 0)\<lparr>pos := (-20, 0), direction := 90\<rparr>)],
              local_player = 0\<rparr>
       = Inr \<lparr>players = [(0, Player_init (0, 30)\<lparr>pos := (0, 20)\<rparr>),
                         (1, Player_init (-30, 0)\<lparr>pos := (-20, 0), direction := 90\<rparr>)],
              local_player = 0\<rparr>"
proof -
  define B where "B = \<lparr>players = [(0, Player_init (0, 30)\<lparr>pos := (0, 20)\<rparr>),
     (1, Player_init (-30, 0)\<lparr>pos := (-20, 0), direction := 90\<rparr>)], local_player = 0\<rparr>"
  have wf: "wf_board B"
    by (simp add: B_def wf_board_def Player_init_def)
  have pi: "first_pressed (\<lambda>i. False) petal_range = None"
    by (simp add: first_pressed_none)
  have m0: "move 1000 (Player_init (0, 30)\<lparr>pos := (0, 20)\<rparr>)
      = Player_init (0, 30)\<lparr>pos := (0, -40)\<rparr>"
    by (simp add: move_def Player_init_def Let_def die_def)
  have m1: "move 1000 (Player_init (-30, 0)\<lparr>pos := (-20, 0), direction := 90\<rparr>)
      = Player_init (-30, 0)\<lparr>direction := 90, pos := (40, 0)\<rparr>"
    by (simp add: move_def Player_init_def Let_def die_def quarter_turn)
  have "0 < (3 / 7 :: real) \<and> (3 / 7 :: real) < 1 \<and> 0 < (3 / 7 :: real) \<and> (3 / 7 :: real) < 1
      \<and> (0::real) + 3 / 7 * (0 - 0) = - 30 + 3 / 7 * (40 - (- 30))
      \<and> (30::real) + 3 / 7 * (- 40 - 30) = 0 + 3 / 7 * (0 - 0)"
    by simp
  then have "\<exists>s t :: real. 0 < s \<and> s < 1 \<and> 0 < t \<and> t < 1
      \<and> 0 + s * (0 - 0) = - 30 + t * (40 - (- 30)) \<and> 30 + s * (- 40 - 30) = 0 + t * (0 - 0)"
    by blast
  then have x: "properly_cross ((0, 30), (0, -40)) ((-30, 0), (40, 0))"
    by (simp add: properly_cross_def numerator_def)
  from think_simultaneous_death [OF wf, of "\<lambda>i. False" 1000] obtain b1 moved b'
    where p: "b1 = (case first_pressed (\<lambda>i. False) petal_range of
              None \<Rightarrow> B
            | Some i \<Rightarrow>
                B\<lparr>players := map (\<lambda>(k, p). if k = local_player B
                                            then (k, set_direction (real i * 360 / 10) p)
                                            else (k, p)) (players B)\<rparr>)"
      and m: "moved = map (\<lambda>(k, p). (k, move 1000 p)) (players b1)"
      and t: "Board_think (\<lambda>i. False) 1000 B = Inr b'"
      and d: "\<forall>n < length moved. \<forall>m < length moved.
          properly_cross (last (traces (snd (moved ! n))), pos (snd (moved ! n)))
                         (last (traces (snd (moved ! m))), pos (snd (moved ! m)))
          \<longrightarrow> dead (snd (players b' ! n)) \<and> dead (snd (players b' ! m))"
    by blast
  have b1: "b1 = B"
    using p by (simp add: pi)
  have mv': "moved = [(0, Player_init (0, 30)\<lparr>pos := (0, -40)\<rparr>),
      (1, Player_init (-30, 0)\<lparr>direction := 90, pos := (40, 0)\<rparr>)]"
    using m by (simp add: b1 B_def m0 m1)
  have "0 < length moved" "1 < length moved"
    by (simp_all add: mv')
  moreover have "properly_cross (last (traces (snd (moved ! 0))), pos (snd (moved ! 0)))
                         (last (traces (snd (moved ! 1))), pos (snd (moved ! 1)))"
    using x by (simp add: mv' Player_init_def)
  ultimately have dd: "dead (snd (players b' ! 0)) \<and> dead (snd (players b' ! 1))"
    using d by blast
  have still: "Board_think (\<lambda>i. False) 0 B = Inr B"
    by (simp add: B_def Board_think_def process_input_def pi move_players_def move_def
        Player_init_def Let_def die_def get_traces_def check_collision_def my_latest_trace_def
        collides_def numerator_def denominator_a_def denominator_b_def isclose_zero_iff)
  from wf t dd still show ?thesis
    unfolding B_def by blast
qed

section \<open>TronGame: the duration is latched\<close>







section \<open>Player: segments of the trail\<close>

lemma collides_point: "collides a (q, q)"
  by (simp add: collides_def numerator_def denominator_a_def isclose_zero_iff)

lemma petal_range_eq: "petal_range = [0, 2, 4, 6, 8]"
  by (simp add: petal_range_def stepsize_def all_petals_def upt_rec)

lemma move_alive:
  "\<not> dead p \<Longrightarrow> \<not> x\<^sup>2 + y\<^sup>2 > 120\<^sup>2 \<Longrightarrow>
   x = fst (pos p) + speed p * delta_ms / 1000 * sin (direction p * (2 * pi) / 360) \<Longrightarrow>
   y = snd (pos p) - speed p * delta_ms / 1000 * cos (direction p * (2 * pi) / 360) \<Longrightarrow>
   move delta_ms p = p\<lparr>pos := (x, y)\<rparr>"
  by (simp add: move_def Let_def)

lemma step_from_spawn:
  fixes \<theta> :: real
  shows "\<not> (- 50 + 24 / 25 * sin \<theta>)\<^sup>2 + (0 - 24 / 25 * cos \<theta>)\<^sup>2 > 120\<^sup>2"
    and "(- 50 + 24 / 25 * sin \<theta>, 0 - 24 / 25 * cos \<theta>) \<noteq> (- 50, 0)"
proof -
  have expand: "(- 50 + 24 / 25 * s)\<^sup>2 + (0 - 24 / 25 * c)\<^sup>2
      = 2500 - 96 * s + 576 / 625 * (s\<^sup>2 + c\<^sup>2)" for s c :: real
    by (simp add: power2_eq_square algebra_simps)
  have "(- 50 + 24 / 25 * sin \<theta>)\<^sup>2 + (0 - 24 / 25 * cos \<theta>)\<^sup>2
      = 2500 - 96 * sin \<theta> + 576 / 625 * ((sin \<theta>)\<^sup>2 + (cos \<theta>)\<^sup>2)"
    by (rule expand)
  also have "\<dots> = 2500 - 96 * sin \<theta> + 576 / 625"
    by simp
  also have "\<dots> \<le> 120\<^sup>2"
  proof -
    have "- 1 \<le> sin \<theta>"
      by (rule sin_ge_minus_one)
    then have "2500 - 96 * sin \<theta> + 576 / 625 \<le> 2500 + 96 + 576 / 625"
      by linarith
    also have "\<dots> \<le> (120::real)\<^sup>2"
      by (simp add: power2_eq_square)
    finally show ?thesis .
  qed
  finally show "\<not> (- 50 + 24 / 25 * sin \<theta>)\<^sup>2 + (0 - 24 / 25 * cos \<theta>)\<^sup>2 > 120\<^sup>2"
    by simp
  show "(- 50 + 24 / 25 * sin \<theta>, 0 - 24 / 25 * cos \<theta>) \<noteq> (- 50, 0)"
  proof
    assume "(- 50 + 24 / 25 * sin \<theta>, 0 - 24 / 25 * cos \<theta>) = (- 50, 0)"
    then have "sin \<theta> = 0" "cos \<theta> = 0"
      by simp_all
    with sin_cos_squared_add [of \<theta>] show False
      by simp
  qed
qed

text \<open>
  Claim C7.  The claim says that no reachable player has a segment of length zero in the
  list paired up from \<open>[traces[0], ..., traces[-1], pos]\<close>, spawn apart.  The source does not
  keep it: \<^verbatim>\<open>set_direction\<close> appends the position whenever it commits a turn, also when
  the position is the trail's last point.  In a game, a press of petal 2 in the first tick
  of 16 milliseconds turns the player on its spawn point: the segment from the spawn point
  to itself enters the list, the player moves on inside the arena, and the collision check
  of that same tick takes the segment for a coincident one and kills the player.  On the
  player alone, two turns at one place after half a second leave the segment from
  \<open>(-50, -30)\<close> to itself in the list for good.
\<close>

theorem turn_on_waypoint_zero_length:
  "(\<exists>b' p. Board_think (\<lambda>i. i = 2) 16 Board_init = Inr b' \<and> players b' = [(0, p)]
       \<and> traces p = [(-50, 0), (-50, 0)] \<and> pos p \<noteq> (-50, 0)
       \<and> (fst (pos p))\<^sup>2 + (snd (pos p))\<^sup>2 \<le> 120\<^sup>2
       \<and> get_traces p = Inr [((-50, 0), (-50, 0)), ((-50, 0), pos p)]
       \<and> zero_length ((-50, 0), (-50, 0)) \<and> dead p)
   \<and> run_ops [Move 500, SetDirection 90, SetDirection 180, Move 1000] (Player_init (-50, 0))
     = Inr \<lparr>pos = (-50, 30), color = (255, 255, 0), direction = 180, speed = 60,
            traces = [(-50, 0), (-50, -30), (-50, -30)], dead = False\<rparr>
   \<and> get_traces \<lparr>pos = (-50, 30), color = (255, 255, 0), direction = 180, speed = 60,
            traces = [(-50, 0), (-50, -30), (-50, -30)], dead = False\<rparr>
     = Inr [((-50, 0), (-50, -30)), ((-50, -30), (-50, -30)), ((-50, -30), (-50, 30))]
   \<and> zero_length ((-50, -30), (-50, -30))
   \<and> list_all nonneg_op [Move 500, SetDirection 90, SetDirection 180, Move 1000]"
proof -
  define P1 where "P1 = \<lparr>pos = (-50, 0), color = (255, 255, 0), direction = 72, speed = 60,
     traces = [(-50, 0), (-50, 0)], dead = False\<rparr>"
  define \<theta> where "\<theta> = direction P1 * (2 * pi) / 360"
  define x where "x = - 50 + 24 / 25 * sin \<theta>"
  define y where "y = 0 - 24 / 25 * cos \<theta>"
  have inside: "\<not> x\<^sup>2 + y\<^sup>2 > 120\<^sup>2" and away: "(x, y) \<noteq> (- 50, 0)"
    unfolding x_def y_def by (rule step_from_spawn)+
  have turn: "process_input (\<lambda>i. i = 2) Board_init = Inr \<lparr>players = [(0, P1)], local_player = 0\<rparr>"
    by (simp add: process_input_def petal_range_eq update_player_def Board_init_def P1_def
        set_direction_def pymod_def Player_init_def)
  have mv: "move 16 P1 = P1\<lparr>pos := (x, y)\<rparr>"
  proof (rule move_alive [OF _ inside])
    show "\<not> dead P1" by (simp add: P1_def)
    show "x = fst (pos P1) + speed P1 * 16 / 1000 * sin (direction P1 * (2 * pi) / 360)"
      unfolding x_def \<theta>_def by (simp add: P1_def)
    show "y = snd (pos P1) - speed P1 * 16 / 1000 * cos (direction P1 * (2 * pi) / 360)"
      unfolding y_def \<theta>_def by (simp add: P1_def)
  qed
  have gt: "get_traces (P1\<lparr>pos := (x, y)\<rparr>) = Inr [((-50, 0), (-50, 0)), ((-50, 0), (x, y))]"
    by (simp add: get_traces_def P1_def)
  have cc: "check_collision (P1\<lparr>pos := (x, y)\<rparr>) [((-50, 0), (-50, 0)), ((-50, 0), (x, y))]
      = Inr (P1\<lparr>pos := (x, y), dead := True\<rparr>)"
    using away by (simp add: check_collision_def my_latest_trace_def collides_point die_def P1_def)
  have think: "Board_think (\<lambda>i. i = 2) 16 Board_init
      = Inr \<lparr>players = [(0, P1\<lparr>pos := (x, y), dead := True\<rparr>)], local_player = 0\<rparr>"
    by (simp add: Board_think_def turn move_players_def mv gt cc)
  have game: "\<exists>b' p. Board_think (\<lambda>i. i = 2) 16 Board_init = Inr b' \<and> players b' = [(0, p)]
       \<and> traces p = [(-50, 0), (-50, 0)] \<and> pos p \<noteq> (-50, 0)
       \<and> (fst (pos p))\<^sup>2 + (snd (pos p))\<^sup>2 \<le> 120\<^sup>2
       \<and> get_traces p = Inr [((-50, 0), (-50, 0)), ((-50, 0), pos p)]
       \<and> zero_length ((-50, 0), (-50, 0)) \<and> dead p"
  proof (intro exI conjI)
    show "Board_think (\<lambda>i. i = 2) 16 Board_init
      = Inr \<lparr>players = [(0, P1\<lparr>pos := (x, y), dead := True\<rparr>)], local_player = 0\<rparr>"
      by (rule think)
    show "players \<lparr>players = [(0, P1\<lparr>pos := (x, y), dead := True\<rparr>)], local_player = 0\<rparr>
        = [(0, P1\<lparr>pos := (x, y), dead := True\<rparr>)]"
      by simp
    show "traces (P1\<lparr>pos := (x, y), dead := True\<rparr>) = [(-50, 0), (-50, 0)]"
      by (simp add: P1_def)
    show "pos (P1\<lparr>pos := (x, y), dead := True\<rparr>) \<noteq> (-50, 0)"
      using away by simp
    show "(fst (pos (P1\<lparr>pos := (x, y), dead := True\<rparr>)))\<^sup>2
        + (snd (pos (P1\<lparr>pos := (x, y), dead := True\<rparr>)))\<^sup>2 \<le> 120\<^sup>2"
      using inside by simp
    show "get_traces (P1\<lparr>pos := (x, y), dead := True\<rparr>)
        = Inr [((-50, 0), (-50, 0)), ((-50, 0), pos (P1\<lparr>pos := (x, y), dead := True\<rparr>))]"
      by (simp add: get_traces_def P1_def)
    show "zero_length ((-50, 0), (-50, 0))"
      by (simp add: zero_length_def)
    show "dead (P1\<lparr>pos := (x, y), dead := True\<rparr>)"
      by simp
  qed
  have calls: "run_ops [Move 500, SetDirection 90, SetDirection 180, Move 1000] (Player_init (-50, 0))
     = Inr \<lparr>pos = (-50, 30), color = (255, 255, 0), direction = 180, speed = 60,
            traces = [(-50, 0), (-50, -30), (-50, -30)], dead = False\<rparr>
   \<and> get_traces \<lparr>pos = (-50, 30), color = (255, 255, 0), direction = 180, speed = 60,
            traces = [(-50, 0), (-50, -30), (-50, -30)], dead = False\<rparr>
     = Inr [((-50, 0), (-50, -30)), ((-50, -30), (-50, -30)), ((-50, -30), (-50, 30))]
   \<and> zero_length ((-50, -30), (-50, -30))
   \<and> list_all nonneg_op [Move 500, SetDirection 90, SetDirection 180, Move 1000]"
    by (simp add: Player_init_def move_def set_direction_def pymod_def Let_def die_def
        get_traces_def zero_length_def nonneg_op_def half_turn)
  from game calls show ?thesis
    by blast
qed

section \<open>Geometry: the zero test\<close>

text \<open>
  Claim C8.  The claim asks for a zero test with a tolerance, one that some non-zero value
  passes.  \<^verbatim>\<open>math.isclose(x, 0)\<close> with the default \<open>abs_tol = 0\<close> compares \<open>\<bar>x\<bar>\<close> with
  \<open>rel_tol * \<bar>x\<bar>\<close> and so holds for \<open>x = 0\<close> only: no non-zero value passes it, for example
  not \<^verbatim>\<open>1e-12\<close>, which an absolute tolerance of \<^verbatim>\<open>1e-09\<close> would accept.  Two segments
  that are collinear up to \<^verbatim>\<open>1e-12\<close> are therefore not taken for coincident.
\<close>

theorem isclose_zero_is_exact:
  "\<not> (\<exists>x. x \<noteq> 0 \<and> isclose x 0) \<and> \<not> isclose (1 / 10 ^ 12) 0
   \<and> isclose_tol (1 / 10 ^ 9) (1 / 10 ^ 9) (1 / 10 ^ 12) 0
   \<and> \<not> collides ((0, 0), (1, 0)) ((2, 0), (3, 1 / 10 ^ 12))"
  by (simp add: isclose_zero_iff isclose_tol_def collides_def numerator_def denominator_a_def
      denominator_b_def)

end
